theory Spec2Isabelle
  imports Main "HOL-Library.Word" "HOL-Library.Log_Nat" "HOL-Library.Multiset"
begin

section \<open>Python strings\<close>

text \<open>
  A Python \<open>str\<close> is a sequence of Unicode code points, and \<open>len\<close> and slicing count
  code points. The texts of this program use characters beyond Latin-1 (the check mark
  U+2713 of the completion summary), so a string is a list of code points. \<open>str\<close> turns
  an ASCII literal into such a list.
\<close>

type_synonym pystr = "nat list"

definition str :: "string \<Rightarrow> pystr" where
  "str s = map of_char s"

text \<open>\<open>str(n)\<close> for a non-negative integer: its decimal digits.\<close>

fun str_nat :: "nat \<Rightarrow> pystr" where
  "str_nat n = (if n < 10 then [48 + n] else str_nat (n div 10) @ [48 + n mod 10])"

declare str_nat.simps [simp del]

definition str_int :: "int \<Rightarrow> pystr" where
  "str_int i = (if i < 0 then 45 # str_nat (nat (- i)) else str_nat (nat i))"

text \<open>
  \<open>s.lower()\<close>: only the mapping of the ASCII capitals is written out. No other code
  point lower-cases to one of the characters of \<open>.exr\<close> and \<open>.hdr\<close>, the only suffixes
  the result is compared with.
\<close>

definition lower_cp :: "nat \<Rightarrow> nat" where
  "lower_cp c = (if 65 \<le> c \<and> c \<le> 90 then c + 32 else c)"

definition lower :: "pystr \<Rightarrow> pystr" where
  "lower s = map lower_cp s"

definition endswith :: "pystr \<Rightarrow> pystr \<Rightarrow> bool" where
  "endswith s suf \<longleftrightarrow> length suf \<le> length s \<and> drop (length s - length suf) s = suf"

definition startswith :: "pystr \<Rightarrow> pystr \<Rightarrow> bool" where
  "startswith s pre \<longleftrightarrow> take (length pre) s = pre"

text \<open>\<open>os.path.join(a, b)\<close> with two arguments, as \<open>posixpath\<close> defines it.\<close>

definition join :: "pystr \<Rightarrow> pystr \<Rightarrow> pystr" where
  "join a b =
     (if startswith b [47] then b
      else if a = [] \<or> endswith a [47] then a @ b
      else a @ [47] @ b)"

section \<open>Single-precision pixel values\<close>

text \<open>
  \<open>read_image(format=oiio.FLOAT)\<close> yields a float32 array. A float32 is NaN, an
  infinity, or a finite value \<open>m * 2 ^ e\<close> (\<open>Finite m e\<close>); the sign of zero is not
  kept, nothing below depends on it. Results of arithmetic are rounded to a 24-bit
  significand, ties to even, with the exponent range of float32.
\<close>

datatype float32 = NaN | PosInf | NegInf | Finite int int

definition pow2 :: "int \<Rightarrow> rat" where
  "pow2 e = (if 0 \<le> e then 2 ^ nat e else 1 / 2 ^ nat (- e))"

definition fval :: "int \<Rightarrow> int \<Rightarrow> rat" where
  "fval m e = of_int m * pow2 e"

text \<open>\<open>n / 2 ^ k\<close> rounded to the nearest integer, ties to the even one.\<close>

definition round_shift :: "int \<Rightarrow> nat \<Rightarrow> int" where
  "round_shift n k =
     (let q = n div 2 ^ k; r = n mod 2 ^ k
      in if 2 * r < 2 ^ k then q
         else if 2 ^ k < 2 * r then q + 1
         else if even q then q else q + 1)"

text \<open>
  The float32 nearest to the exact value \<open>n * 2 ^ e\<close>: the significand keeps 24 bits,
  the exponent of the last bit is at least \<open>-149\<close>, and a result of magnitude
  \<open>2 ^ 128\<close> or more is an infinity.
\<close>

definition f32_round :: "int \<Rightarrow> int \<Rightarrow> float32" where
  "f32_round n e =
     (let k = nat (max 0 (max (bitlen \<bar>n\<bar> - 24) (- 149 - e)));
          m = round_shift n k;
          e' = e + int k
      in if fval \<bar>m\<bar> e' < pow2 128 then Finite m e'
         else if 0 < m then PosInf else NegInf)"

fun f32_sgn :: "float32 \<Rightarrow> int" where
  "f32_sgn PosInf = 1"
| "f32_sgn NegInf = - 1"
| "f32_sgn (Finite m e) = sgn m"
| "f32_sgn NaN = 0"

fun f32_mul :: "float32 \<Rightarrow> float32 \<Rightarrow> float32" where
  "f32_mul (Finite m1 e1) (Finite m2 e2) = f32_round (m1 * m2) (e1 + e2)"
| "f32_mul NaN y = NaN"
| "f32_mul x NaN = NaN"
| "f32_mul x y =
     (let s = f32_sgn x * f32_sgn y
      in if s = 0 then NaN else if 0 < s then PosInf else NegInf)"

text \<open>
  \<open>np.nan_to_num(img)\<close> with numpy's defaults (\<open>nan=0.0, posinf=None, neginf=None\<close>):
  NaN becomes zero, and an infinity becomes the finite float32 of largest magnitude
  and the same sign, \<open>(2 ^ 24 - 1) * 2 ^ 104\<close>.
\<close>

fun nan_to_num :: "float32 \<Rightarrow> float32" where
  "nan_to_num NaN = Finite 0 0"
| "nan_to_num PosInf = Finite 16777215 104"
| "nan_to_num NegInf = Finite (- 16777215) 104"
| "nan_to_num (Finite m e) = Finite m e"

text \<open>\<open>np.clip(img, 0.0, 1.0)\<close>, that is \<open>minimum(maximum(x, 0.0), 1.0)\<close>.\<close>

fun clip :: "float32 \<Rightarrow> float32" where
  "clip NaN = NaN"
| "clip PosInf = Finite 1 0"
| "clip NegInf = Finite 0 0"
| "clip (Finite m e) =
     (if fval m e < 0 then Finite 0 0
      else if 1 < fval m e then Finite 1 0
      else Finite m e)"

text \<open>
  \<open>.astype(np.uint8)\<close> is the C conversion of a float to an unsigned 8-bit integer: it
  drops the fraction (\<open>trunc m e\<close> is \<open>m * 2 ^ e\<close> rounded toward zero), and is
  defined only when the truncated value fits, that is for values strictly between
  \<open>-1\<close> and \<open>256\<close>. \<open>None\<close> stands for the conversions that C leaves undefined.
\<close>

definition trunc :: "int \<Rightarrow> int \<Rightarrow> int" where
  "trunc m e =
     (if 0 \<le> e then m * 2 ^ nat e
      else if 0 \<le> m then m div 2 ^ nat (- e)
      else - ((- m) div 2 ^ nat (- e)))"

fun astype_uint8 :: "float32 \<Rightarrow> 8 word option" where
  "astype_uint8 (Finite m e) =
     (if - 1 < fval m e \<and> fval m e < 256 then Some (word_of_int (trunc m e)) else None)"
| "astype_uint8 x = None"

text \<open>Lines 139 to 141 of \<open>ThumbnailWorker.run\<close>, on one array element.\<close>

definition sanitize :: "float32 \<Rightarrow> 8 word option" where
  "sanitize x = astype_uint8 (f32_mul (clip (nan_to_num x)) (Finite 255 0))"

section \<open>The files and images the program reads\<close>

text \<open>
  \<open>oiio.ImageInput.open(path)\<close> returns \<open>None\<close> for a file it cannot open, otherwise
  an input with the image's \<open>spec()\<close>. \<open>read_image\<close> gives the flat float32 array of
  \<open>height * width * nchannels\<close> values, or fails: then \<open>Inl msg\<close> holds the text of the
  exception that the numpy calls raise on what the failed read returned.
\<close>

record image_input =
  spec_width :: nat
  spec_height :: nat
  spec_nchannels :: nat
  read_image :: "pystr + float32 list"

text \<open>
  The environment of one run: \<open>os.path.isdir\<close>, \<open>os.listdir\<close> (\<open>None\<close> when it raises
  \<open>OSError\<close>) and the image files.
\<close>

record env =
  isdir :: "pystr \<Rightarrow> bool"
  listdir :: "pystr \<Rightarrow> pystr list option"
  oiio_open :: "pystr \<Rightarrow> image_input option"

section \<open>ThumbnailWorker\<close>

datatype qformat = Format_Grayscale8 | Format_RGB888

record qimage =
  qi_width :: nat
  qi_height :: nat
  qi_bytes_per_line :: nat
  qi_format :: qformat
  qi_bits :: "8 word list"

text \<open>
  \<open>QImage(data, width, height, bytesPerLine, format).copy()\<close>. The constructor wraps
  the caller's buffer without looking at its size, and \<open>copy\<close> reads \<open>height\<close> lines
  of \<open>bytesPerLine\<close> bytes from it. On a shorter buffer that read runs past its end:
  \<open>None\<close>, the image is not determined by the data.
\<close>

definition qimage_copy :: "8 word list \<Rightarrow> nat \<Rightarrow> nat \<Rightarrow> nat \<Rightarrow> qformat \<Rightarrow> qimage option" where
  "qimage_copy data w h bpl fmt =
     (if length data < h * bpl then None
      else Some \<lparr>qi_width = w, qi_height = h, qi_bytes_per_line = bpl, qi_format = fmt,
                 qi_bits = take (h * bpl) data\<rparr>)"

text \<open>
  \<open>QPixmap.fromImage(qimg).scaled(w, h, KeepAspectRatio, SmoothTransformation)\<close>;
  the resampling itself is Qt's and stays symbolic.
\<close>

datatype pixmap = Scaled qimage nat nat

text \<open>The two signals of a worker: \<open>finished(path, pixmap, info_text)\<close> and \<open>error(path, error_msg)\<close>.\<close>

datatype signal = Finished pystr pixmap pystr | Error pystr pystr

text \<open>The array \<open>img[:, :, :3]\<close> of an array of pixels with \<open>c\<close> channels each, flattened.\<close>

function chunks :: "nat \<Rightarrow> 'a list \<Rightarrow> 'a list list" where
  "chunks c xs = (if c = 0 \<or> xs = [] then [] else take c xs # chunks c (drop c xs))"
  by pat_completeness auto
termination
  by (relation "measure (\<lambda>(c, xs). length xs)") auto

declare chunks.simps [simp del]

definition first3 :: "nat \<Rightarrow> 'a list \<Rightarrow> 'a list" where
  "first3 c xs = concat (map (take 3) (chunks c xs))"

text \<open>The text of numpy's \<open>ValueError\<close> when \<open>reshape\<close> gets a shape of another size.\<close>

fun shape_str :: "nat list \<Rightarrow> pystr" where
  "shape_str [] = []"
| "shape_str [d] = str_nat d"
| "shape_str (d # ds) = str_nat d @ [44] @ shape_str ds"

definition reshape_error :: "nat \<Rightarrow> nat list \<Rightarrow> pystr" where
  "reshape_error n shape =
     str ''cannot reshape array of size '' @ str_nat n @ str '' into shape ('' @
     shape_str shape @ str '')''"

text \<open>\<open>f"{spec.width}\<times>{spec.height} \<cdot> {spec.nchannels}ch"\<close>; the two signs are U+00D7 and U+00B7.\<close>

definition info_text :: "nat \<Rightarrow> nat \<Rightarrow> nat \<Rightarrow> pystr" where
  "info_text w h c = str_nat w @ [215] @ str_nat h @ [32, 183, 32] @ str_nat c @ str ''ch''"

text \<open>
  \<open>ThumbnailWorker.run\<close>: the signal the worker emits. Every Python exception ends in
  the \<open>except\<close> branch and becomes \<open>Error path (str(e)[:30])\<close>; a failed \<open>open\<close>
  returns \<open>None\<close>, and \<open>inp.spec()\<close> on it raises the \<open>AttributeError\<close> whose text is
  below. \<open>None\<close> is a run that leaves Python's defined behaviour (an undefined
  conversion or a read past a buffer), where no signal is determined.
\<close>

definition none_has_no_spec :: pystr where
  "none_has_no_spec =
     [39] @ str ''NoneType'' @ [39] @ str '' object has no attribute '' @ [39] @ str ''spec'' @ [39]"

definition run :: "env \<Rightarrow> pystr \<Rightarrow> signal option" where
  "run env path =
     (case oiio_open env path of
        None \<Rightarrow> Some (Error path (take 30 none_has_no_spec))
      | Some inp \<Rightarrow>
         (case read_image inp of
            Inl msg \<Rightarrow> Some (Error path (take 30 msg))
          | Inr img \<Rightarrow>
             (case those (map sanitize img) of
                None \<Rightarrow> None
              | Some img8 \<Rightarrow>
                 (let w = spec_width inp; h = spec_height inp; c = spec_nchannels inp
                  in if c = 1 then
                       (if length img8 \<noteq> h * w
                        then Some (Error path (take 30 (reshape_error (length img8) [h, w])))
                        else map_option (\<lambda>qimg. Finished path (Scaled qimg 220 220) (info_text w h c))
                               (qimage_copy img8 w h w Format_Grayscale8))
                     else
                       (if length img8 \<noteq> h * w * c
                        then Some (Error path (take 30 (reshape_error (length img8) [h, w, c])))
                        else map_option (\<lambda>qimg. Finished path (Scaled qimg 220 220) (info_text w h c))
                               (qimage_copy (if 3 \<le> c then first3 c img8 else img8)
                                  w h (w * 3) Format_RGB888))))))"

section \<open>The thread pool\<close>

text \<open>
  \<open>QThreadPool\<close>, as far as the program uses it. A worker is identified by the path it
  was built with. \<open>start\<close> runs the worker at once while fewer than \<open>maxThreadCount\<close>
  workers are running and queues it otherwise; \<open>clear\<close> removes the workers that
  have not started and leaves the running ones alone; when a running worker ends,
  its thread takes the next queued worker.
\<close>

record pool =
  max_thread_count :: nat
  active :: "pystr list"
  queue :: "pystr list"

definition MAX_THREAD_COUNT :: "nat \<Rightarrow> nat" where
  "MAX_THREAD_COUNT cpu_count = max 1 (cpu_count div 2)"

definition pool_start :: "pystr \<Rightarrow> pool \<Rightarrow> pool" where
  "pool_start w p =
     (if length (active p) < max_thread_count p then p\<lparr>active := active p @ [w]\<rparr>
      else p\<lparr>queue := queue p @ [w]\<rparr>)"

definition pool_clear :: "pool \<Rightarrow> pool" where
  "pool_clear p = p\<lparr>queue := []\<rparr>"

definition pool_finish :: "nat \<Rightarrow> pool \<Rightarrow> pool" where
  "pool_finish i p =
     (let rest = take i (active p) @ drop (Suc i) (active p)
      in case queue p of
           [] \<Rightarrow> p\<lparr>active := rest\<rparr>
         | w # q \<Rightarrow> p\<lparr>active := rest @ [w], queue := q\<rparr>)"

section \<open>EXRBrowser: cards and session state\<close>

text \<open>
  One entry of \<open>card_data\<close>: the widgets of a card, reduced to what the handlers set.
  The thumbnail label shows nothing (the pulsing loading label lies over it), a pixmap,
  or a text. Style sheets that span several lines are named, the short ones are kept
  as text.
\<close>

datatype thumb = Blank | ShowsPixmap pixmap | ShowsText pystr

datatype thumb_style = Style_thumbnail | Style_failed

record card =
  label_path :: pystr
  label_shows :: thumb
  label_style :: thumb_style
  name_text :: pystr
  info_shows :: pystr
  info_style :: pystr
  loading_pulsing :: bool
  loading_delete_later :: bool
  animation_started :: bool

text \<open>The life cycle of an item, read off its card.\<close>

datatype lifecycle = Loading | Loaded | Failed

definition item_state :: "card \<Rightarrow> lifecycle" where
  "item_state c =
     (case label_shows c of Blank \<Rightarrow> Loading | ShowsPixmap p \<Rightarrow> Loaded | ShowsText t \<Rightarrow> Failed)"

text \<open>
  The state of the window that the folder logic reads and writes. \<open>ENABLE_MULTITHREADING\<close>
  is the constant \<open>True\<close> and \<open>thread_pool\<close> is always the global pool, so
  \<open>_build_card\<close> always loads asynchronously; the synchronous fallback is unreachable
  and is left out. \<open>grid\<close> lists the cards in the layout with their row and column.
\<close>

record browser =
  thread_pool :: pool
  card_data :: "pystr \<rightharpoonup> card"
  loaded_count :: nat
  total_count :: nat
  count_label_text :: pystr
  count_label_style :: pystr
  grid :: "(pystr \<times> nat \<times> nat) list"
  intensity_value_label :: pystr
  location_value_label :: pystr

text \<open>The window after \<open>__init__\<close> with no last folder.\<close>

definition init :: "nat \<Rightarrow> browser" where
  "init cpu_count =
     \<lparr>thread_pool = \<lparr>max_thread_count = MAX_THREAD_COUNT cpu_count, active = [], queue = []\<rparr>,
      card_data = Map.empty, loaded_count = 0, total_count = 0,
      count_label_text = str ''No files loaded'',
      count_label_style = str ''color: #888; font-style: italic;'',
      grid = [],
      intensity_value_label = str ''1.0'',
      location_value_label = str ''0'' @ [176]\<rparr>"

definition clear :: "browser \<Rightarrow> browser" where
  "clear s = s\<lparr>thread_pool := pool_clear (thread_pool s), card_data := Map.empty,
               loaded_count := 0, total_count := 0, grid := []\<rparr>"

text \<open>
  \<open>_update_progress\<close>. Its two texts are
  \<open>f"\<dots> Loaded {total} HDRI file{'s' if total != 1 else ''}"\<close>, which starts with the
  check mark U+2713, and \<open>f"Loading {loaded}/{total} HDRI files..."\<close>.
\<close>

definition summary_text :: "nat \<Rightarrow> pystr" where
  "summary_text n =
     [10003] @ str '' Loaded '' @ str_nat n @ str '' HDRI file'' @
     (if n \<noteq> 1 then str ''s'' else [])"

definition progress_text :: "nat \<Rightarrow> nat \<Rightarrow> pystr" where
  "progress_text k n =
     str ''Loading '' @ str_nat k @ [47] @ str_nat n @ str '' HDRI files...''"

definition update_progress :: "browser \<Rightarrow> browser" where
  "update_progress s =
     (if total_count s \<le> loaded_count s then
        s\<lparr>count_label_text := summary_text (total_count s),
          count_label_style := str ''color: #4caf50; font-style: italic; font-weight: bold;''\<rparr>
      else
        s\<lparr>count_label_text := progress_text (loaded_count s) (total_count s)\<rparr>)"

text \<open>\<open>_on_thumbnail_loaded\<close> and \<open>_on_thumbnail_error\<close>; the warning sign is U+26A0.\<close>

definition on_thumbnail_loaded :: "pystr \<Rightarrow> pixmap \<Rightarrow> pystr \<Rightarrow> browser \<Rightarrow> browser" where
  "on_thumbnail_loaded path pix info s =
     (case card_data s path of
        None \<Rightarrow> s
      | Some c \<Rightarrow>
          update_progress
            (s\<lparr>card_data := (card_data s)(path \<mapsto>
                  c\<lparr>loading_pulsing := False, loading_delete_later := True,
                    label_shows := ShowsPixmap pix, label_style := Style_thumbnail,
                    info_shows := info,
                    info_style := str ''color: #4caf50; font-size: 9pt; font-weight: bold;'',
                    animation_started := True\<rparr>),
               loaded_count := loaded_count s + 1\<rparr>))"

definition on_thumbnail_error :: "pystr \<Rightarrow> pystr \<Rightarrow> browser \<Rightarrow> browser" where
  "on_thumbnail_error path error_msg s =
     (case card_data s path of
        None \<Rightarrow> s
      | Some c \<Rightarrow>
          update_progress
            (s\<lparr>card_data := (card_data s)(path \<mapsto>
                  c\<lparr>loading_pulsing := False, loading_delete_later := True,
                    label_shows := ShowsText ([9888] @ str '' Failed to load''),
                    label_style := Style_failed,
                    info_shows := error_msg,
                    info_style := str ''color: #ff6b6b; font-size: 8pt;'',
                    animation_started := True\<rparr>),
               loaded_count := loaded_count s + 1\<rparr>))"

text \<open>
  \<open>_build_card\<close> with \<open>_load_thumbnail_async\<close>: the widgets of the new card are
  stored under its path and its worker is started.
\<close>

definition new_card :: "pystr \<Rightarrow> pystr \<Rightarrow> card" where
  "new_card path filename =
     \<lparr>label_path = path, label_shows = Blank, label_style = Style_thumbnail,
      name_text = filename,
      info_shows = str ''Loading...'', info_style = str ''color: #888; font-size: 9pt;'',
      loading_pulsing = True, loading_delete_later = False,
      animation_started = False\<rparr>"

definition load_thumbnail_async :: "pystr \<Rightarrow> browser \<Rightarrow> browser" where
  "load_thumbnail_async path s = s\<lparr>thread_pool := pool_start path (thread_pool s)\<rparr>"

definition build_card :: "pystr \<Rightarrow> pystr \<Rightarrow> browser \<Rightarrow> browser" where
  "build_card path filename s =
     load_thumbnail_async path (s\<lparr>card_data := (card_data s)(path \<mapsto> new_card path filename)\<rparr>)"

text \<open>The loop of \<open>load_exrs\<close> over the listed files, four cards to a row.\<close>

fun place_cards :: "pystr \<Rightarrow> pystr list \<Rightarrow> nat \<Rightarrow> nat \<Rightarrow> browser \<Rightarrow> browser" where
  "place_cards folder [] row col s = s"
| "place_cards folder (f # fs) row col s =
     (let full_path = join folder f;
          s1 = build_card full_path f s;
          s2 = s1\<lparr>grid := grid s1 @ [(full_path, row, col)]\<rparr>
      in if col + 1 = 4 then place_cards folder fs (row + 1) 0 s2
         else place_cards folder fs row (col + 1) s2)"

definition is_hdri :: "pystr \<Rightarrow> bool" where
  "is_hdri f \<longleftrightarrow> endswith (lower f) (str ''.exr'') \<or> endswith (lower f) (str ''.hdr'')"

text \<open>
  \<open>load_exrs\<close>. When \<open>os.listdir\<close> raises, the exception leaves the method after
  \<open>clear()\<close> has run, and the state stays as \<open>clear\<close> left it.
\<close>

definition load_exrs :: "env \<Rightarrow> pystr \<Rightarrow> browser \<Rightarrow> browser" where
  "load_exrs env folder s =
     (if \<not> isdir env folder then
        s\<lparr>count_label_text := str ''Invalid folder path'',
          count_label_style := str ''color: #ff4444; font-style: italic;''\<rparr>
      else
        (let s1 = clear s
         in case listdir env folder of
              None \<Rightarrow> s1
            | Some names \<Rightarrow>
               (let files = filter is_hdri names
                in if files = [] then
                     s1\<lparr>count_label_text := str ''No HDRI files found'',
                        count_label_style := str ''color: #ff9800; font-style: italic;''\<rparr>
                   else
                     place_cards folder files 0 0
                       (s1\<lparr>total_count := length files, loaded_count := 0,
                           count_label_text :=
                             str ''Loading 0/'' @ str_nat (length files) @ str '' HDRI files...'',
                           count_label_style :=
                             str ''color: #ffa500; font-style: italic; font-weight: bold;''\<rparr>))))"

section \<open>Workers and the main thread together\<close>

text \<open>
  A worker emits its signal on its own thread; the connection to the window's slots
  is queued, so the signal waits in the main thread's event queue (\<open>mailbox\<close>) until
  the event loop delivers it.
\<close>

record system =
  gui :: browser
  mailbox :: "signal list"

fun on_signal :: "signal \<Rightarrow> browser \<Rightarrow> browser" where
  "on_signal (Finished path pix info) s = on_thumbnail_loaded path pix info s"
| "on_signal (Error path msg) s = on_thumbnail_error path msg s"

text \<open>The running worker number \<open>i\<close> ends; \<open>None\<close> when there is none or its run is undefined.\<close>

definition worker_finish :: "env \<Rightarrow> nat \<Rightarrow> system \<Rightarrow> system option" where
  "worker_finish env i sys =
     (let p = thread_pool (gui sys)
      in if length (active p) \<le> i then None
         else case run env (active p ! i) of
                None \<Rightarrow> None
              | Some sg \<Rightarrow>
                  Some (sys\<lparr>gui := (gui sys)\<lparr>thread_pool := pool_finish i p\<rparr>,
                            mailbox := mailbox sys @ [sg]\<rparr>))"

definition deliver :: "system \<Rightarrow> system" where
  "deliver sys =
     (case mailbox sys of
        [] \<Rightarrow> sys
      | sg # rest \<Rightarrow> sys\<lparr>gui := on_signal sg (gui sys), mailbox := rest\<rparr>)"

text \<open>Delivering a list of signals one after the other.\<close>

definition deliver_all :: "signal list \<Rightarrow> browser \<Rightarrow> browser" where
  "deliver_all sgs s = foldl (\<lambda>s sg. on_signal sg s) s sgs"

fun signal_path :: "signal \<Rightarrow> pystr" where
  "signal_path (Finished path pix info) = path"
| "signal_path (Error path msg) = path"

definition open_folder :: "env \<Rightarrow> pystr \<Rightarrow> system \<Rightarrow> system" where
  "open_folder env folder sys = sys\<lparr>gui := load_exrs env folder (gui sys)\<rparr>"

section \<open>The host scene and the environment light\<close>

text \<open>
  What the program sees of Houdini: whether \<open>import hou\<close> succeeded
  (\<open>ENABLE_HOUDINI\<close>), and the children of the node \<open>/obj\<close> (\<open>None\<close> when
  \<open>hou.node("/obj")\<close> returns \<open>None\<close>), each with its type name, its name and its
  parameters. \<open>value / 5.0\<close> is kept as an exact fraction.
\<close>

datatype parm_value = PString pystr | PFloat rat | PInt int

record node =
  node_type :: pystr
  node_name :: pystr
  parms :: "pystr \<rightharpoonup> parm_value"

record host =
  ENABLE_HOUDINI :: bool
  obj :: "node list option"

definition ENABLE_ENV_LIGHT_CLICK :: bool where
  "ENABLE_ENV_LIGHT_CLICK = True"

definition is_envlight :: "node \<Rightarrow> bool" where
  "is_envlight n \<longleftrightarrow> node_type n = str ''envlight''"

text \<open>
  \<open>next((n for n in obj.children() if n.type().name() == "envlight"), None)\<close> is
  \<open>find is_envlight\<close>. The node it returns is the scene's own, so setting a parameter
  on it changes the first environment light among the children.
\<close>

fun update_first :: "('a \<Rightarrow> bool) \<Rightarrow> ('a \<Rightarrow> 'a) \<Rightarrow> 'a list \<Rightarrow> 'a list" where
  "update_first P f [] = []"
| "update_first P f (x # xs) = (if P x then f x # xs else x # update_first P f xs)"

text \<open>\<open>parm = n.parm(name)\<close>, then \<open>if parm: parm.set(v)\<close>.\<close>

definition set_parm :: "pystr \<Rightarrow> parm_value \<Rightarrow> node \<Rightarrow> node" where
  "set_parm name v n = (case parms n name of None \<Rightarrow> n | Some old \<Rightarrow> n\<lparr>parms := (parms n)(name \<mapsto> v)\<rparr>)"

text \<open>
  \<open>obj.createNode("envlight", "HDRI_Environment_Light")\<close>: a new environment light
  with the parameters the program uses at Houdini's defaults.
\<close>

definition new_envlight :: node where
  "new_envlight =
     \<lparr>node_type = str ''envlight'', node_name = str ''HDRI_Environment_Light'',
      parms = [str ''env_map'' \<mapsto> PString [], str ''light_intensity'' \<mapsto> PFloat 1,
               str ''ry'' \<mapsto> PFloat 0]\<rparr>"

text \<open>
  \<open>ClickableLabel._apply_env_light\<close> and \<open>mousePressEvent\<close>. \<open>moveToGoodPosition\<close>
  and the tooltip shown at the end change neither the nodes nor their parameters.
\<close>

definition apply_env_light :: "pystr \<Rightarrow> host \<Rightarrow> host" where
  "apply_env_light path h =
     (case obj h of
        None \<Rightarrow> h
      | Some children \<Rightarrow>
         (case find is_envlight children of
            None \<Rightarrow> h\<lparr>obj := Some (children @ [set_parm (str ''env_map'') (PString path) new_envlight])\<rparr>
          | Some env \<Rightarrow>
              h\<lparr>obj := Some (update_first is_envlight (set_parm (str ''env_map'') (PString path)) children)\<rparr>))"

datatype mouse_button = LeftButton | RightButton | MiddleButton

definition mousePressEvent :: "mouse_button \<Rightarrow> pystr \<Rightarrow> host \<Rightarrow> host" where
  "mousePressEvent button path h =
     (if \<not> (ENABLE_HOUDINI h \<and> ENABLE_ENV_LIGHT_CLICK \<and> button = LeftButton) then h
      else apply_env_light path h)"

text \<open>
  The host part of the two slider handlers: a parameter of the first environment
  light is set when Houdini is there, \<open>/obj\<close> exists, an environment light exists and
  has the parameter; otherwise nothing happens. The handlers wrap these steps in
  \<open>try/except\<close>, so nothing they do can raise into the caller.
\<close>

definition set_light_parm :: "pystr \<Rightarrow> parm_value \<Rightarrow> host \<Rightarrow> host" where
  "set_light_parm name v h =
     (if ENABLE_HOUDINI h then
        (case obj h of
           None \<Rightarrow> h
         | Some children \<Rightarrow>
            (case find is_envlight children of
               None \<Rightarrow> h
             | Some env \<Rightarrow> h\<lparr>obj := Some (update_first is_envlight (set_parm name v) children)\<rparr>))
      else h)"

definition on_intensity_changed :: "int \<Rightarrow> browser \<times> host \<Rightarrow> browser \<times> host" where
  "on_intensity_changed v = (\<lambda>(s, h).
     (s\<lparr>intensity_value_label := str_int v @ str ''.0''\<rparr>,
      set_light_parm (str ''light_intensity'') (PFloat (of_int v / 5)) h))"

definition on_location_changed :: "int \<Rightarrow> browser \<times> host \<Rightarrow> browser \<times> host" where
  "on_location_changed v = (\<lambda>(s, h).
     (s\<lparr>location_value_label := str_int v @ [176]\<rparr>,
      set_light_parm (str ''ry'') (PInt v) h))"

text \<open>The operations that touch the environment light, and a sequence of them.\<close>

datatype light_op = SelectImage mouse_button pystr | ChangeRotation int | ChangeIntensity int

fun light_step :: "light_op \<Rightarrow> browser \<times> host \<Rightarrow> browser \<times> host" where
  "light_step (SelectImage button path) (s, h) = (s, mousePressEvent button path h)"
| "light_step (ChangeRotation r) (s, h) = on_location_changed r (s, h)"
| "light_step (ChangeIntensity v) (s, h) = on_intensity_changed v (s, h)"

definition light_steps :: "light_op list \<Rightarrow> browser \<times> host \<Rightarrow> browser \<times> host" where
  "light_steps ops w = foldl (\<lambda>w op. light_step op w) w ops"

definition envlights :: "host \<Rightarrow> node list" where
  "envlights h = (case obj h of None \<Rightarrow> [] | Some children \<Rightarrow> filter is_envlight children)"

text \<open>The value of a parameter of the first environment light, when there is one.\<close>

definition light_parm :: "pystr \<Rightarrow> host \<Rightarrow> parm_value option" where
  "light_parm name h =
     (case obj h of
        None \<Rightarrow> None
      | Some children \<Rightarrow>
         (case find is_envlight children of None \<Rightarrow> None | Some env \<Rightarrow> parms env name))"

section \<open>Example data\<close>

text \<open>
  A folder \<open>/hdri\<close> with a one-pixel grey image \<open>a.exr\<close>, a text file and a corrupt
  \<open>b.HDR\<close>, and a folder \<open>/empty\<close> without images.
\<close>

definition demo_folder :: pystr where
  "demo_folder = str ''/hdri''"

definition grey_pixel :: image_input where
  "grey_pixel = \<lparr>spec_width = 1, spec_height = 1, spec_nchannels = 1,
                 read_image = Inr [Finite 1 (- 1)]\<rparr>"

definition demo_env :: env where
  "demo_env =
     \<lparr>isdir = (\<lambda>p. p = demo_folder \<or> p = str ''/empty''),
      listdir = (\<lambda>p. if p = demo_folder then Some [str ''a.exr'', str ''notes.txt'', str ''b.HDR'']
                      else if p = str ''/empty'' then Some [str ''readme.md'']
                      else None),
      oiio_open = (\<lambda>p. if p = str ''/hdri/a.exr'' then Some grey_pixel else None)\<rparr>"

text \<open>The signals of the two workers of \<open>/hdri\<close>.\<close>

definition demo_signal_a :: signal where
  "demo_signal_a =
     Finished (str ''/hdri/a.exr'')
       (Scaled \<lparr>qi_width = 1, qi_height = 1, qi_bytes_per_line = 1,
                qi_format = Format_Grayscale8, qi_bits = [127]\<rparr> 220 220)
       (info_text 1 1 1)"

definition demo_signal_b :: signal where
  "demo_signal_b = Error (str ''/hdri/b.HDR'') (take 30 none_has_no_spec)"

text \<open>
  A machine with two cores, so one worker thread. \<open>/hdri\<close> is opened, and opened again
  while the worker of \<open>a.exr\<close> from the first load is still running
  (\<open>demo_reloaded\<close>). Then that worker ends and posts its signal (\<open>demo_stale_posted\<close>).
\<close>

definition demo_loaded_once :: system where
  "demo_loaded_once = open_folder demo_env demo_folder \<lparr>gui = init 2, mailbox = []\<rparr>"

definition demo_reloaded :: system where
  "demo_reloaded = open_folder demo_env demo_folder demo_loaded_once"

definition demo_stale_posted :: system where
  "demo_stale_posted =
     demo_reloaded\<lparr>gui := (gui demo_reloaded)\<lparr>thread_pool :=
                        pool_finish 0 (thread_pool (gui demo_reloaded))\<rparr>,
                   mailbox := [demo_signal_a]\<rparr>"



text \<open>A scene without an environment light, and one that has a geometry node and a light.\<close>

definition bare_scene :: host where
  "bare_scene = \<lparr>ENABLE_HOUDINI = True, obj = Some []\<rparr>"


section \<open>Basic facts\<close>

lemma demo_paths:
  "join demo_folder (str ''a.exr'') = str ''/hdri/a.exr''"
  "join demo_folder (str ''b.HDR'') = str ''/hdri/b.HDR''"
  by (simp_all add: join_def demo_folder_def str_def startswith_def endswith_def)

lemma demo_is_hdri:
  "is_hdri (str ''a.exr'')" "\<not> is_hdri (str ''notes.txt'')" "is_hdri (str ''b.HDR'')"
  "\<not> is_hdri (str ''readme.md'')"
  by (simp_all add: is_hdri_def endswith_def lower_def lower_cp_def str_def)

lemma demo_isdir:
  "\<not> isdir demo_env (str ''/nowhere'')" "isdir demo_env demo_folder" "isdir demo_env (str ''/empty'')"
  by (simp_all add: demo_env_def demo_folder_def str_def)

lemma demo_listdir:
  "listdir demo_env demo_folder = Some [str ''a.exr'', str ''notes.txt'', str ''b.HDR'']"
  "listdir demo_env (str ''/empty'') = Some [str ''readme.md'']"
  by (simp_all add: demo_env_def demo_folder_def str_def)

subsection \<open>The loop of \<open>load_exrs\<close>\<close>

lemma build_card_fields [simp]:
  "loaded_count (build_card p f s) = loaded_count s"
  "total_count (build_card p f s) = total_count s"
  "count_label_text (build_card p f s) = count_label_text s"
  "count_label_style (build_card p f s) = count_label_style s"
  "grid (build_card p f s) = grid s"
  "thread_pool (build_card p f s) = pool_start p (thread_pool s)"
  by (simp_all add: build_card_def load_thumbnail_async_def)

lemma place_cards_fields [simp]:
  "loaded_count (place_cards folder fs row col s) = loaded_count s"
  "total_count (place_cards folder fs row col s) = total_count s"
  "count_label_text (place_cards folder fs row col s) = count_label_text s"
  "count_label_style (place_cards folder fs row col s) = count_label_style s"
  by (induction fs arbitrary: row col s; simp add: Let_def)+

lemma place_cards_grid:
  "map fst (grid (place_cards folder fs row col s)) = map fst (grid s) @ map (join folder) fs"
  by (induction fs arbitrary: row col s) (simp_all add: Let_def)

lemma pool_start_mset:
  "mset (active (pool_start w p) @ queue (pool_start w p)) = mset (active p @ queue p) + {#w#}"
  by (simp add: pool_start_def)

lemma pool_start_max [simp]: "max_thread_count (pool_start w p) = max_thread_count p"
  by (simp add: pool_start_def)

lemma place_cards_pool:
  "mset (active (thread_pool (place_cards folder fs row col s)) @
         queue (thread_pool (place_cards folder fs row col s))) =
   mset (active (thread_pool s) @ queue (thread_pool s)) + mset (map (join folder) fs)"
proof (induction fs arbitrary: row col s)
  case Nil
  show ?case by simp
next
  case (Cons f fs)
  show ?case
    by (simp add: Let_def Cons.IH pool_start_mset del: mset_append)
qed

lemma place_cards_card_data_other:
  "p \<notin> set (map (join folder) fs) \<Longrightarrow> card_data (place_cards folder fs row col s) p = card_data s p"
  by (induction fs arbitrary: row col s) (auto simp: Let_def build_card_def load_thumbnail_async_def)

lemma place_cards_card_data_new:
  "p \<in> set (map (join folder) fs) \<Longrightarrow>
     \<exists>c. card_data (place_cards folder fs row col s) p = Some c \<and> label_shows c = Blank \<and>
         label_path c = p \<and> loading_pulsing c"
proof (induction fs arbitrary: row col s)
  case Nil
  then show ?case by simp
next
  case (Cons f fs)
  show ?case
  proof (cases "p \<in> set (map (join folder) fs)")
    case True
    then show ?thesis using Cons.IH by (simp add: Let_def)
  next
    case False
    with Cons.prems have p: "p = join folder f" by simp
    show ?thesis
      using False
      by (simp add: Let_def place_cards_card_data_other p build_card_def load_thumbnail_async_def
          new_card_def)
  qed
qed

lemma place_cards_dom:
  "dom (card_data (place_cards folder fs row col s)) = dom (card_data s) \<union> set (map (join folder) fs)"
proof (rule set_eqI)
  fix p
  show "p \<in> dom (card_data (place_cards folder fs row col s)) \<longleftrightarrow>
        p \<in> dom (card_data s) \<union> set (map (join folder) fs)"
  proof (cases "p \<in> set (map (join folder) fs)")
    case True
    from place_cards_card_data_new [OF True, of row col s] show ?thesis using True by auto
  next
    case False
    then show ?thesis by (auto simp: place_cards_card_data_other)
  qed
qed

section \<open>Opening something that is not a directory\<close>

text \<open>
  Claim C7. For a path that is not a directory, \<open>load_exrs\<close> puts the invalid-folder
  status into the status label and returns before it lists anything: the result does
  not depend on what a listing would give, and the thread pool is as it was, so the
  call submits no decode task.
\<close>

theorem load_exrs_not_dir_status:
  "\<not> isdir env folder \<Longrightarrow>
     count_label_text (load_exrs env folder s) = str ''Invalid folder path'' \<and>
     count_label_style (load_exrs env folder s) = str ''color: #ff4444; font-style: italic;'' \<and>
     active (thread_pool (load_exrs env folder s)) = active (thread_pool s) \<and>
     queue (thread_pool (load_exrs env folder s)) = queue (thread_pool s) \<and>
     load_exrs (env\<lparr>listdir := l\<rparr>) folder s = load_exrs env folder s"
  by (simp add: load_exrs_def)

theorem load_exrs_not_dir_status_witness:
  "\<not> isdir demo_env (str ''/nowhere'') \<and>
   count_label_text (load_exrs demo_env (str ''/nowhere'') (init 8)) = str ''Invalid folder path'' \<and>
   active (thread_pool (load_exrs demo_env (str ''/nowhere'') (init 8))) = [] \<and>
   queue (thread_pool (load_exrs demo_env (str ''/nowhere'') (init 8))) = []"
  using load_exrs_not_dir_status [of demo_env "str ''/nowhere''" "init 8"]
  by (simp add: demo_isdir init_def)

text \<open>
  Claim C10. When \<open>load_exrs\<close> is called with a path that is not a directory, only the
  status label (its text and its style sheet) changes: the card table, the two
  counters, the grid of cards and the thread pool with its queue are what they were,
  so the cards of the folder opened before stay on display.
\<close>

theorem load_exrs_not_dir_frame:
  "\<not> isdir env folder \<Longrightarrow>
     load_exrs env folder s =
       s\<lparr>count_label_text := str ''Invalid folder path'',
         count_label_style := str ''color: #ff4444; font-style: italic;''\<rparr> \<and>
     card_data (load_exrs env folder s) = card_data s \<and>
     loaded_count (load_exrs env folder s) = loaded_count s \<and>
     total_count (load_exrs env folder s) = total_count s \<and>
     grid (load_exrs env folder s) = grid s \<and>
     thread_pool (load_exrs env folder s) = thread_pool s"
  by (simp add: load_exrs_def)

lemma demo_grid:
  "grid (load_exrs demo_env demo_folder (init 8)) =
     [(str ''/hdri/a.exr'', 0, 0), (str ''/hdri/b.HDR'', 0, 1)]"
  by (simp add: load_exrs_def demo_isdir demo_listdir demo_is_hdri demo_paths clear_def init_def
      build_card_def load_thumbnail_async_def Let_def)

theorem load_exrs_not_dir_frame_witness:
  "\<not> isdir demo_env (str ''/nowhere'') \<and>
   grid (load_exrs demo_env (str ''/nowhere'') (load_exrs demo_env demo_folder (init 8))) =
     [(str ''/hdri/a.exr'', 0, 0), (str ''/hdri/b.HDR'', 0, 1)] \<and>
   count_label_text (load_exrs demo_env (str ''/nowhere'') (load_exrs demo_env demo_folder (init 8))) =
     str ''Invalid folder path''"
  using load_exrs_not_dir_frame [of demo_env "str ''/nowhere''" "load_exrs demo_env demo_folder (init 8)"]
  by (simp add: demo_isdir demo_grid)

section \<open>Opening a directory\<close>

text \<open>
  Claim C8. For a directory whose listing has no entry ending in \<open>.exr\<close> or \<open>.hdr\<close>
  (compared in lower case), \<open>load_exrs\<close> shows the status "No HDRI files found" and
  submits no decode task: the queue is empty, the card table is empty and the running
  workers are those from before. For every directory, the workers in the pool after the
  call are those that were running before plus exactly one per listed entry with one
  of the two extensions, so no other entry becomes a task.
\<close>

theorem load_exrs_empty_folder:
  "isdir env folder \<Longrightarrow> listdir env folder = Some names \<Longrightarrow>
     (filter is_hdri names = [] \<longrightarrow>
        count_label_text (load_exrs env folder s) = str ''No HDRI files found'' \<and>
        count_label_style (load_exrs env folder s) = str ''color: #ff9800; font-style: italic;'' \<and>
        card_data (load_exrs env folder s) = Map.empty \<and>
        total_count (load_exrs env folder s) = 0 \<and>
        active (thread_pool (load_exrs env folder s)) = active (thread_pool s) \<and>
        queue (thread_pool (load_exrs env folder s)) = []) \<and>
     mset (active (thread_pool (load_exrs env folder s)) @
           queue (thread_pool (load_exrs env folder s))) =
       mset (active (thread_pool s)) + mset (map (join folder) (filter is_hdri names))"
  by (auto simp add: load_exrs_def Let_def place_cards_pool clear_def pool_clear_def
      filter_empty_conv simp del: mset_append)

theorem load_exrs_empty_folder_witness:
  "isdir demo_env (str ''/empty'') \<and> listdir demo_env (str ''/empty'') = Some [str ''readme.md''] \<and>
   filter is_hdri [str ''readme.md''] = [] \<and>
   count_label_text (load_exrs demo_env (str ''/empty'') (init 8)) = str ''No HDRI files found'' \<and>
   queue (thread_pool (load_exrs demo_env (str ''/empty'') (init 8))) = [] \<and>
   active (thread_pool (load_exrs demo_env (str ''/empty'') (init 8))) = []"
  using load_exrs_empty_folder [of demo_env "str ''/empty''" "[str ''readme.md'']" "init 8"]
  by (simp add: demo_isdir demo_listdir demo_is_hdri init_def)

section \<open>Applying task results\<close>

lemma update_progress_fields [simp]:
  "card_data (update_progress s) = card_data s"
  "loaded_count (update_progress s) = loaded_count s"
  "total_count (update_progress s) = total_count s"
  "thread_pool (update_progress s) = thread_pool s"
  "grid (update_progress s) = grid s"
  by (simp_all add: update_progress_def)

lemma on_signal_unknown:
  "card_data s (signal_path sg) = None \<Longrightarrow> on_signal sg s = s"
  by (cases sg) (simp_all add: on_thumbnail_loaded_def on_thumbnail_error_def)

lemma on_signal_frame [simp]:
  "total_count (on_signal sg s) = total_count s"
  "thread_pool (on_signal sg s) = thread_pool s"
  "grid (on_signal sg s) = grid s"
  by (cases sg; simp add: on_thumbnail_loaded_def on_thumbnail_error_def split: option.split)+

lemma on_signal_other:
  "q \<noteq> signal_path sg \<Longrightarrow> card_data (on_signal sg s) q = card_data s q"
  by (cases sg) (simp_all add: on_thumbnail_loaded_def on_thumbnail_error_def split: option.split)

lemma on_signal_dom [simp]: "dom (card_data (on_signal sg s)) = dom (card_data s)"
  by (cases sg) (auto simp: on_thumbnail_loaded_def on_thumbnail_error_def split: option.splits if_splits)

lemma on_signal_count:
  "card_data s (signal_path sg) = Some c \<Longrightarrow> loaded_count (on_signal sg s) = Suc (loaded_count s)"
  by (cases sg) (simp_all add: on_thumbnail_loaded_def on_thumbnail_error_def)

lemma on_signal_label:
  "card_data s (signal_path sg) = Some c \<Longrightarrow>
     count_label_text (on_signal sg s) =
       (if total_count s \<le> Suc (loaded_count s) then summary_text (total_count s)
        else progress_text (Suc (loaded_count s)) (total_count s))"
  by (cases sg) (simp_all add: on_thumbnail_loaded_def on_thumbnail_error_def update_progress_def)

lemma on_signal_terminal:
  "card_data s (signal_path sg) = Some c \<Longrightarrow>
     \<exists>c'. card_data (on_signal sg s) (signal_path sg) = Some c' \<and>
          (item_state c' = Loaded \<or> item_state c' = Failed)"
  by (cases sg) (simp_all add: on_thumbnail_loaded_def on_thumbnail_error_def item_state_def)

lemma deliver_all_snoc [simp]: "deliver_all (sgs @ [sg]) s = on_signal sg (deliver_all sgs s)"
  by (simp add: deliver_all_def)

lemma deliver_all_Nil [simp]: "deliver_all [] s = s"
  by (simp add: deliver_all_def)

lemma deliver_all_frame [simp]:
  "total_count (deliver_all sgs s) = total_count s"
  "dom (card_data (deliver_all sgs s)) = dom (card_data s)"
  "thread_pool (deliver_all sgs s) = thread_pool s"
  by (induction sgs rule: rev_induct; simp)+

lemma deliver_all_count:
  "set (map signal_path sgs) \<subseteq> dom (card_data s) \<Longrightarrow>
     loaded_count (deliver_all sgs s) = loaded_count s + length sgs"
proof (induction sgs rule: rev_induct)
  case Nil
  show ?case by simp
next
  case (snoc sg sgs)
  then have "signal_path sg \<in> dom (card_data (deliver_all sgs s))" by simp
  then obtain c where "card_data (deliver_all sgs s) (signal_path sg) = Some c" by blast
  from on_signal_count [OF this] snoc show ?case by simp
qed

lemma deliver_all_label:
  assumes "set (map signal_path sgs) \<subseteq> dom (card_data s)" and "sgs \<noteq> []"
  shows "count_label_text (deliver_all sgs s) =
           (if total_count s \<le> loaded_count s + length sgs then summary_text (total_count s)
            else progress_text (loaded_count s + length sgs) (total_count s))"
proof (cases sgs rule: rev_cases)
  case Nil
  with assms show ?thesis by simp
next
  case (snoc sgs' sg)
  with assms have sub: "set (map signal_path sgs') \<subseteq> dom (card_data s)"
    and "signal_path sg \<in> dom (card_data (deliver_all sgs' s))" by simp_all
  then obtain c where "card_data (deliver_all sgs' s) (signal_path sg) = Some c" by blast
  from on_signal_label [OF this] show ?thesis
    by (simp add: snoc deliver_all_count [OF sub])
qed

lemma deliver_all_terminal:
  "set (map signal_path sgs) \<subseteq> dom (card_data s) \<Longrightarrow> p \<in> set (map signal_path sgs) \<Longrightarrow>
     \<exists>c. card_data (deliver_all sgs s) p = Some c \<and> (item_state c = Loaded \<or> item_state c = Failed)"
proof (induction sgs rule: rev_induct)
  case Nil
  then show ?case by simp
next
  case (snoc sg sgs)
  from snoc.prems have "signal_path sg \<in> dom (card_data (deliver_all sgs s))" by simp
  then obtain c where c: "card_data (deliver_all sgs s) (signal_path sg) = Some c" by blast
  show ?case
  proof (cases "p = signal_path sg")
    case True
    with on_signal_terminal [OF c] show ?thesis by simp
  next
    case False
    with snoc.prems have "p \<in> set (map signal_path sgs)" by simp
    with snoc have "\<exists>c. card_data (deliver_all sgs s) p = Some c \<and>
        (item_state c = Loaded \<or> item_state c = Failed)" by simp
    with False show ?thesis by (simp add: on_signal_other)
  qed
qed

lemma progress_text_not_summary [simp]: "progress_text k n \<noteq> summary_text n"
  by (simp add: progress_text_def summary_text_def str_def)

lemma load_exrs_listed:
  assumes "isdir env folder" and "listdir env folder = Some names" and "filter is_hdri names \<noteq> []"
  shows "loaded_count (load_exrs env folder s) = 0"
    and "total_count (load_exrs env folder s) = length (filter is_hdri names)"
    and "dom (card_data (load_exrs env folder s)) = set (map (join folder) (filter is_hdri names))"
    and "count_label_text (load_exrs env folder s) = progress_text 0 (length (filter is_hdri names))"
  using assms
  by (simp_all add: load_exrs_def Let_def clear_def place_cards_dom progress_text_def str_def
      str_nat.simps [of 0])

lemma load_exrs_nothing_listed:
  assumes "isdir env folder" and "listdir env folder = Some names" and "filter is_hdri names = []"
  shows "loaded_count (load_exrs env folder s) = 0"
    and "total_count (load_exrs env folder s) = 0"
    and "card_data (load_exrs env folder s) = Map.empty"
  using assms by (simp_all add: load_exrs_def Let_def clear_def)

text \<open>
  Claim C4. Let a folder load list \<open>N\<close> matching files, and let the results of its
  \<open>N\<close> tasks be delivered in any order, one per listed path and no other. After all
  of them \<open>loaded_count = total_count = N\<close>, the card table holds exactly the listed
  paths and every card is \<open>Loaded\<close> or \<open>Failed\<close>; for \<open>N > 0\<close> the status label then
  shows the success summary, and after only \<open>k < N\<close> of them it shows
  "Loading k/N HDRI files..." with \<open>loaded_count = k\<close>, a text different from the
  summary. (For \<open>N = 0\<close> no result is ever applied and the label keeps the text of
  the empty folder.)
\<close>

theorem all_results_applied:
  assumes dir: "isdir env folder" and ls: "listdir env folder = Some names"
    and sgs: "mset (map signal_path sgs) = mset (map (join folder) (filter is_hdri names))"
  shows "loaded_count (deliver_all sgs (load_exrs env folder s)) = length (filter is_hdri names) \<and>
         total_count (deliver_all sgs (load_exrs env folder s)) = length (filter is_hdri names) \<and>
         dom (card_data (deliver_all sgs (load_exrs env folder s))) =
           set (map (join folder) (filter is_hdri names)) \<and>
         (\<forall>p c. card_data (deliver_all sgs (load_exrs env folder s)) p = Some c \<longrightarrow>
                item_state c = Loaded \<or> item_state c = Failed) \<and>
         (filter is_hdri names \<noteq> [] \<longrightarrow>
            count_label_text (deliver_all sgs (load_exrs env folder s)) =
              summary_text (length (filter is_hdri names))) \<and>
         (\<forall>k < length (filter is_hdri names).
            loaded_count (deliver_all (take k sgs) (load_exrs env folder s)) = k \<and>
            total_count (deliver_all (take k sgs) (load_exrs env folder s)) =
              length (filter is_hdri names) \<and>
            count_label_text (deliver_all (take k sgs) (load_exrs env folder s)) =
              progress_text k (length (filter is_hdri names)) \<and>
            progress_text k (length (filter is_hdri names)) \<noteq>
              summary_text (length (filter is_hdri names)))"
proof (cases "filter is_hdri names = []")
  case True
  with sgs have "sgs = []" by simp
  with True load_exrs_nothing_listed [OF dir ls True, of s] show ?thesis by simp
next
  case False
  let ?files = "filter is_hdri names"
  let ?s0 = "load_exrs env folder s"
  note s0 = load_exrs_listed [OF dir ls False, of s]
  from sgs have "set (map signal_path sgs) = set (map (join folder) ?files)"
    by (rule mset_eq_setD)
  then have sub: "set (map signal_path sgs) \<subseteq> dom (card_data ?s0)"
    and all: "dom (card_data ?s0) \<subseteq> set (map signal_path sgs)"
    by (simp_all add: s0)
  have "length (map signal_path sgs) = length (map (join folder) ?files)"
    using sgs by (rule mset_eq_length)
  then have len: "length sgs = length ?files" by simp
  with False have ne: "sgs \<noteq> []" by auto
  have count: "loaded_count (deliver_all sgs ?s0) = length ?files"
    using deliver_all_count [OF sub] by (simp add: s0 len)
  have "\<And>p c. card_data (deliver_all sgs ?s0) p = Some c \<Longrightarrow>
          item_state c = Loaded \<or> item_state c = Failed"
  proof -
    fix p c
    assume pc: "card_data (deliver_all sgs ?s0) p = Some c"
    then have "p \<in> dom (card_data (deliver_all sgs ?s0))" by blast
    with all have "p \<in> set (map signal_path sgs)" by auto
    from deliver_all_terminal [OF sub this] pc show "item_state c = Loaded \<or> item_state c = Failed"
      by auto
  qed
  moreover have "count_label_text (deliver_all sgs ?s0) = summary_text (length ?files)"
    using deliver_all_label [OF sub ne] by (simp add: s0 len)
  moreover have "\<And>k. k < length ?files \<Longrightarrow>
      loaded_count (deliver_all (take k sgs) ?s0) = k \<and>
      total_count (deliver_all (take k sgs) ?s0) = length ?files \<and>
      count_label_text (deliver_all (take k sgs) ?s0) = progress_text k (length ?files)"
  proof -
    fix k
    assume k: "k < length ?files"
    have subk: "set (map signal_path (take k sgs)) \<subseteq> dom (card_data ?s0)"
      using sub set_take_subset [of k sgs] by auto
    have lenk: "length (take k sgs) = k" using k len by simp
    have "count_label_text (deliver_all (take k sgs) ?s0) = progress_text k (length ?files)"
    proof (cases "k = 0")
      case True
      then show ?thesis by (simp add: s0)
    next
      case False
      with lenk have "take k sgs \<noteq> []" by auto
      from deliver_all_label [OF subk this, unfolded lenk] k show ?thesis by (simp add: s0)
    qed
    then show "loaded_count (deliver_all (take k sgs) ?s0) = k \<and>
      total_count (deliver_all (take k sgs) ?s0) = length ?files \<and>
      count_label_text (deliver_all (take k sgs) ?s0) = progress_text k (length ?files)"
      using deliver_all_count [OF subk, unfolded lenk] by (simp add: s0)
  qed
  ultimately show ?thesis using count by (simp add: s0)
qed

lemma sanitize_half: "sanitize (Finite 1 (- 1)) = Some 127"
  by (simp add: sanitize_def f32_round_def round_shift_def fval_def pow2_def trunc_def
      compute_bitlen Let_def)

lemma demo_run_a: "run demo_env (str ''/hdri/a.exr'') = Some demo_signal_a"
  by (simp add: run_def demo_env_def grey_pixel_def sanitize_half qimage_copy_def demo_signal_a_def)


lemma demo_signal_paths [simp]:
  "signal_path demo_signal_a = str ''/hdri/a.exr''"
  "signal_path demo_signal_b = str ''/hdri/b.HDR''"
  by (simp_all add: demo_signal_a_def demo_signal_b_def)

theorem all_results_applied_witness:
  "isdir demo_env demo_folder \<and>
   listdir demo_env demo_folder = Some [str ''a.exr'', str ''notes.txt'', str ''b.HDR''] \<and>
   mset (map signal_path [demo_signal_b, demo_signal_a]) =
     mset (map (join demo_folder) (filter is_hdri [str ''a.exr'', str ''notes.txt'', str ''b.HDR''])) \<and>
   loaded_count (deliver_all [demo_signal_b, demo_signal_a] (load_exrs demo_env demo_folder (init 8))) = 2 \<and>
   total_count (deliver_all [demo_signal_b, demo_signal_a] (load_exrs demo_env demo_folder (init 8))) = 2 \<and>
   count_label_text (deliver_all [demo_signal_b, demo_signal_a] (load_exrs demo_env demo_folder (init 8))) =
     summary_text 2 \<and>
   count_label_text (deliver_all [demo_signal_b] (load_exrs demo_env demo_folder (init 8))) =
     progress_text 1 2"
proof -
  have ms: "mset (map signal_path [demo_signal_b, demo_signal_a]) =
     mset (map (join demo_folder) (filter is_hdri [str ''a.exr'', str ''notes.txt'', str ''b.HDR'']))"
    by (simp add: demo_is_hdri demo_paths)
  have len: "length (filter is_hdri [str ''a.exr'', str ''notes.txt'', str ''b.HDR'']) = 2"
    by (simp add: demo_is_hdri)
  note th = all_results_applied [OF demo_isdir(2) demo_listdir(1) ms, of "init 8", unfolded len]
  from th have "count_label_text (deliver_all (take 1 [demo_signal_b, demo_signal_a])
      (load_exrs demo_env demo_folder (init 8))) = progress_text 1 2"
    by (elim conjE allE [of _ 1]) simp
  with th ms show ?thesis
    by (simp add: demo_isdir demo_listdir demo_is_hdri)
qed

section \<open>A decode that fails\<close>

lemma demo_paths_differ:
  "str ''/hdri/a.exr'' \<noteq> str ''/hdri/b.HDR''" "str ''/hdri/b.HDR'' \<noteq> str ''/hdri/a.exr''"
  by (simp_all add: str_def)


lemma new_card_Loading [simp]: "item_state (new_card p f) = Loading"
  by (simp add: new_card_def item_state_def)



section \<open>Results that arrive after a reload\<close>

lemma demo_loaded_once_pool:
  "active (thread_pool (gui demo_loaded_once)) = [str ''/hdri/a.exr'']"
  "queue (thread_pool (gui demo_loaded_once)) = [str ''/hdri/b.HDR'']"
  "max_thread_count (thread_pool (gui demo_loaded_once)) = 1"
  by (simp_all add: demo_loaded_once_def open_folder_def load_exrs_def demo_isdir demo_listdir
      demo_is_hdri demo_paths clear_def init_def build_card_def load_thumbnail_async_def Let_def
      pool_start_def pool_clear_def MAX_THREAD_COUNT_def)

lemma demo_reloaded_gui:
  "active (thread_pool (gui demo_reloaded)) = [str ''/hdri/a.exr'']"
  "queue (thread_pool (gui demo_reloaded)) = [str ''/hdri/a.exr'', str ''/hdri/b.HDR'']"
  "loaded_count (gui demo_reloaded) = 0"
  "total_count (gui demo_reloaded) = 2"
  "card_data (gui demo_reloaded) (str ''/hdri/a.exr'') =
     Some (new_card (str ''/hdri/a.exr'') (str ''a.exr''))"
  "mailbox demo_reloaded = []"
  by (simp_all add: demo_reloaded_def open_folder_def load_exrs_def demo_isdir demo_listdir
      demo_is_hdri demo_paths clear_def build_card_def load_thumbnail_async_def Let_def
      pool_start_def pool_clear_def demo_loaded_once_pool demo_paths_differ
      demo_loaded_once_def [THEN arg_cong, of mailbox])

text \<open>
  Claim C1 fails as stated. The worker of \<open>a.exr\<close> that was running when \<open>/hdri\<close> was
  opened again is not touched by \<open>clear()\<close>; the two tasks of the second load wait in
  the queue behind it. When it ends, its signal is delivered to the new session, whose
  card table has the same path again: the new card goes from \<open>Loading\<close> to \<open>Loaded\<close>
  and \<open>loaded_count\<close> goes from 0 to 1, while both tasks of the second load are still
  in the pool.
\<close>

theorem stale_result_applied:
  "active (thread_pool (gui demo_loaded_once)) = [str ''/hdri/a.exr''] \<and>
   active (thread_pool (gui demo_reloaded)) = [str ''/hdri/a.exr''] \<and>
   queue (thread_pool (gui demo_reloaded)) = [str ''/hdri/a.exr'', str ''/hdri/b.HDR''] \<and>
   loaded_count (gui demo_reloaded) = 0 \<and>
   map_option item_state (card_data (gui demo_reloaded) (str ''/hdri/a.exr'')) = Some Loading \<and>
   worker_finish demo_env 0 demo_reloaded = Some demo_stale_posted \<and>
   mailbox demo_stale_posted = [demo_signal_a] \<and>
   active (thread_pool (gui (deliver demo_stale_posted))) = [str ''/hdri/a.exr''] \<and>
   queue (thread_pool (gui (deliver demo_stale_posted))) = [str ''/hdri/b.HDR''] \<and>
   map_option item_state (card_data (gui (deliver demo_stale_posted)) (str ''/hdri/a.exr'')) =
     Some Loaded \<and>
   loaded_count (gui (deliver demo_stale_posted)) = 1 \<and>
   count_label_text (gui (deliver demo_stale_posted)) = progress_text 1 2"
proof -
  have wf: "worker_finish demo_env 0 demo_reloaded = Some demo_stale_posted"
    by (simp add: worker_finish_def demo_reloaded_gui demo_run_a demo_stale_posted_def Let_def)
  have g: "gui (deliver demo_stale_posted) =
      on_signal demo_signal_a ((gui demo_reloaded)\<lparr>thread_pool :=
         pool_finish 0 (thread_pool (gui demo_reloaded))\<rparr>)"
    by (simp add: deliver_def demo_stale_posted_def)
  have c: "card_data ((gui demo_reloaded)\<lparr>thread_pool :=
         pool_finish 0 (thread_pool (gui demo_reloaded))\<rparr>) (signal_path demo_signal_a) =
       Some (new_card (str ''/hdri/a.exr'') (str ''a.exr''))"
    by (simp add: demo_reloaded_gui)
  have "map_option item_state (card_data (gui (deliver demo_stale_posted)) (str ''/hdri/a.exr'')) =
     Some Loaded"
    unfolding g
    by (simp add: demo_signal_a_def on_thumbnail_loaded_def demo_reloaded_gui item_state_def)
  moreover have "loaded_count (gui (deliver demo_stale_posted)) = 1"
    unfolding g using on_signal_count [OF c] by (simp add: demo_reloaded_gui)
  moreover have "count_label_text (gui (deliver demo_stale_posted)) = progress_text 1 2"
    unfolding g using on_signal_label [OF c] by (simp add: demo_reloaded_gui)
  moreover have "active (thread_pool (gui (deliver demo_stale_posted))) = [str ''/hdri/a.exr'']"
    "queue (thread_pool (gui (deliver demo_stale_posted))) = [str ''/hdri/b.HDR'']"
    unfolding g by (simp_all add: pool_finish_def demo_reloaded_gui)
  ultimately show ?thesis
    using wf by (simp add: demo_loaded_once_pool demo_reloaded_gui demo_stale_posted_def)
qed

text \<open>
  Claim C1, amended. After a folder has been opened again, a result of a task of an
  earlier load whose path is not a path of the new listing is never applied: whenever it
  is delivered, after any number of other results, the whole session state stays as it
  is, so no card changes and no counter is incremented. (A late result whose path is
  listed again finds the new card under that path and is applied to it.)
\<close>

theorem stale_result_of_unlisted_path_discarded:
  assumes "isdir env folder" and "listdir env folder = Some names"
    and "signal_path sg \<notin> set (map (join folder) (filter is_hdri names))"
  shows "on_signal sg (deliver_all sgs (load_exrs env folder s)) =
           deliver_all sgs (load_exrs env folder s)"
proof -
  have "dom (card_data (load_exrs env folder s)) = set (map (join folder) (filter is_hdri names))"
  proof (cases "filter is_hdri names = []")
    case True
    from load_exrs_nothing_listed(3) [OF assms(1,2) True, of s] True show ?thesis by simp
  next
    case False
    from load_exrs_listed(3) [OF assms(1,2) False] show ?thesis .
  qed
  with assms(3) have "signal_path sg \<notin> dom (card_data (deliver_all sgs (load_exrs env folder s)))"
    by simp
  then have "card_data (deliver_all sgs (load_exrs env folder s)) (signal_path sg) = None"
    by blast
  then show ?thesis by (rule on_signal_unknown)
qed

theorem stale_result_of_unlisted_path_discarded_witness:
  "isdir demo_env (str ''/empty'') \<and>
   listdir demo_env (str ''/empty'') = Some [str ''readme.md''] \<and>
   signal_path demo_signal_a \<notin> set (map (join (str ''/empty'')) (filter is_hdri [str ''readme.md''])) \<and>
   on_signal demo_signal_a (load_exrs demo_env (str ''/empty'') (gui demo_loaded_once)) =
     load_exrs demo_env (str ''/empty'') (gui demo_loaded_once)"
proof -
  have n: "signal_path demo_signal_a \<notin>
      set (map (join (str ''/empty'')) (filter is_hdri [str ''readme.md'']))"
    by (simp add: demo_is_hdri)
  from stale_result_of_unlisted_path_discarded [OF demo_isdir(3) demo_listdir(2) n,
      of "[]" "gui demo_loaded_once"] n
  show ?thesis by (simp add: demo_isdir demo_listdir)
qed

section \<open>Sanitizing pixel values\<close>

lemma pow2_powi: "pow2 e = 2 powi e"
  by (simp add: pow2_def power_int_def inverse_eq_divide power_one_over)

lemma pow2_pos [simp]: "0 < pow2 e"
  by (simp add: pow2_powi)

lemma pow2_add: "pow2 (a + b) = pow2 a * pow2 b"
  by (simp add: pow2_powi power_int_add)

lemma pow2_0 [simp]: "pow2 0 = 1"
  by (simp add: pow2_def)

lemma pow2_nat: "pow2 (int k) = 2 ^ k"
  by (simp add: pow2_def)

lemma pow2_mono: "a \<le> b \<Longrightarrow> pow2 a \<le> pow2 b"
  by (simp add: pow2_powi power_int_increasing)

lemma pow2_not_le [simp]: "\<not> pow2 e \<le> 0" "0 \<le> pow2 e"
  using pow2_pos [of e] by (simp_all only: not_le less_imp_le)

lemma fval_nonneg_iff: "0 \<le> fval m e \<longleftrightarrow> 0 \<le> m"
  by (auto simp: fval_def zero_le_mult_iff)

lemma fval_neg_iff: "fval m e < 0 \<longleftrightarrow> m < 0"
  using fval_nonneg_iff [of m e] by linarith

lemma fval_mono: "m \<le> n \<Longrightarrow> fval m e \<le> fval n e"
  by (simp add: fval_def)

lemma round_shift_0 [simp]: "round_shift n 0 = n"
  by (simp add: round_shift_def)

lemma round_shift_nonneg: "0 \<le> n \<Longrightarrow> 0 \<le> round_shift n k"
  by (simp add: round_shift_def Let_def pos_imp_zdiv_nonneg_iff)

lemma round_shift_le:
  assumes "n \<le> M * 2 ^ k"
  shows "round_shift n k \<le> M"
proof -
  have q: "n div 2 ^ k \<le> M"
    using assms zdiv_mono1 [of n "M * 2 ^ k" "2 ^ k"] by simp
  show ?thesis
  proof (cases "n div 2 ^ k = M")
    case True
    have "n = (n div 2 ^ k) * 2 ^ k + n mod 2 ^ k" by (simp only: div_mult_mod_eq)
    then have "n = M * 2 ^ k + n mod 2 ^ k" by (simp only: True)
    with assms have "n mod 2 ^ k \<le> 0" by linarith
    moreover have "0 \<le> n mod (2 ^ k :: int)" by simp
    ultimately have "n mod 2 ^ k = 0" by linarith
    with True show ?thesis by (simp add: round_shift_def Let_def)
  next
    case False
    with q have "n div 2 ^ k + 1 \<le> M" by linarith
    with q show ?thesis by (simp add: round_shift_def Let_def)
  qed
qed

lemma pow2_minus_cancel [simp]: "pow2 (- e) * pow2 e = 1" "pow2 e * pow2 (- e) = 1"
  using pow2_add [of "- e" e] pow2_add [of e "- e"] by simp_all

lemma f32_round_unit:
  assumes n0: "0 \<le> n" and le: "fval n e \<le> 255"
  shows "\<exists>m' e'. f32_round n e = Finite m' e' \<and> 0 \<le> m' \<and> fval m' e' \<le> 255"
proof -
  define k where "k = nat (max 0 (max (bitlen \<bar>n\<bar> - 24) (- 149 - e)))"
  define m' where "m' = round_shift n k"
  define e' where "e' = e + int k"
  have m'0: "0 \<le> m'" unfolding m'_def using n0 by (rule round_shift_nonneg)
  have bound: "fval m' e' \<le> 255"
  proof (cases "k = 0")
    case True
    with le show ?thesis by (simp add: m'_def e'_def)
  next
    case False
    then have kpos: "0 < int k" by simp
    have e'0: "e' \<le> 0"
    proof (rule ccontr)
      assume "\<not> e' \<le> 0"
      then have epos: "1 - int k \<le> e" by (simp add: e'_def)
      have "int k = bitlen \<bar>n\<bar> - 24 \<or> int k = - 149 - e"
        using kpos unfolding k_def by (auto simp: max_def split: if_splits)
      with epos kpos have kb: "int k = bitlen n - 24" using n0 by auto
      with kpos have "bitlen n \<noteq> 0" by simp
      then have npos: "0 < n" using bitlen_eq_zero_iff [of n] by simp
      from bitlen_bounds [OF npos] have "2 ^ nat (bitlen n - 1) \<le> n" ..
      moreover have "nat (bitlen n - 1) = k + 23" using kb by simp
      ultimately have i: "(2::int) ^ (k + 23) \<le> n" by simp
      have "pow2 (int (k + 23)) = of_int (2 ^ (k + 23))"
        by (simp only: pow2_nat of_int_power of_int_numeral)
      also have "\<dots> \<le> of_int n" using i by (simp only: of_int_le_iff)
      finally have "pow2 (int (k + 23)) \<le> of_int n" .
      then have "pow2 (int (k + 23)) * pow2 (1 - int k) \<le> of_int n * pow2 e"
        using pow2_mono [OF epos] n0 by (intro mult_mono) simp_all
      moreover have "pow2 (int (k + 23)) * pow2 (1 - int k) = pow2 24"
        by (simp add: pow2_add [symmetric])
      ultimately have "pow2 24 \<le> fval n e" by (simp add: fval_def)
      with le show False by (simp add: pow2_def)
    qed
    define M :: int where "M = 255 * 2 ^ nat (- e')"
    have Mrat: "(of_int M :: rat) = 255 * pow2 (- e')"
      using e'0 by (simp add: M_def pow2_def)
    have "of_int n * pow2 e * pow2 (- e) \<le> 255 * pow2 (- e)"
      using le by (simp add: fval_def)
    then have nle: "(of_int n :: rat) \<le> 255 * pow2 (- e)"
      by (simp add: mult.assoc)
    have "- e = - e' + int k" by (simp add: e'_def)
    then have "pow2 (- e) = pow2 (- e') * pow2 (int k)" by (simp only: pow2_add)
    then have "pow2 (- e) = pow2 (- e') * 2 ^ k" by (simp only: pow2_nat)
    with nle have "(of_int n :: rat) \<le> of_int (M * 2 ^ k)"
      by (simp add: Mrat mult.assoc)
    then have "n \<le> M * 2 ^ k" by (simp only: of_int_le_iff)
    then have "m' \<le> M" unfolding m'_def by (rule round_shift_le)
    then have "fval m' e' \<le> fval M e'" by (rule fval_mono)
    also have "fval M e' = 255" by (simp add: fval_def Mrat mult.assoc)
    finally show ?thesis .
  qed
  have "fval \<bar>m'\<bar> e' < pow2 128"
  proof -
    have "fval \<bar>m'\<bar> e' \<le> 255" using m'0 bound by simp
    also have "(255::rat) < pow2 128" by (simp add: pow2_def)
    finally show ?thesis .
  qed
  then have "f32_round n e = Finite m' e'"
    by (simp add: f32_round_def Let_def k_def [symmetric] m'_def [symmetric] e'_def [symmetric])
  with m'0 bound show ?thesis by blast
qed

lemma trunc_floor:
  assumes "0 \<le> m"
  shows "trunc m e = \<lfloor>fval m e\<rfloor>"
proof (cases "0 \<le> e")
  case True
  then have "fval m e = of_int (m * 2 ^ nat e)" by (simp add: fval_def pow2_def)
  then have "\<lfloor>fval m e\<rfloor> = m * 2 ^ nat e" by (simp only: floor_of_int)
  with True show ?thesis by (simp add: trunc_def)
next
  case False
  then have "fval m e = of_int m / of_int (2 ^ nat (- e))" by (simp add: fval_def pow2_def)
  then have "\<lfloor>fval m e\<rfloor> = m div 2 ^ nat (- e)" by (simp only: floor_divide_of_int_eq)
  with False assms show ?thesis by (simp add: trunc_def)
qed

lemma astype_uint8_unit:
  assumes "0 \<le> m" and "fval m e \<le> 255"
  shows "astype_uint8 (Finite m e) = Some (word_of_int \<lfloor>fval m e\<rfloor>)"
    and "0 \<le> \<lfloor>fval m e\<rfloor>" and "\<lfloor>fval m e\<rfloor> \<le> 255"
    and "unat (word_of_int \<lfloor>fval m e\<rfloor> :: 8 word) = nat \<lfloor>fval m e\<rfloor>"
proof -
  have v0: "0 \<le> fval m e" using assms(1) by (simp add: fval_nonneg_iff)
  then show f0: "0 \<le> \<lfloor>fval m e\<rfloor>" by simp
  show f255: "\<lfloor>fval m e\<rfloor> \<le> 255" using assms(2) by (simp add: floor_le_iff)
  show "astype_uint8 (Finite m e) = Some (word_of_int \<lfloor>fval m e\<rfloor>)"
    using v0 assms by (simp add: trunc_floor)
  show "unat (word_of_int \<lfloor>fval m e\<rfloor> :: 8 word) = nat \<lfloor>fval m e\<rfloor>"
    using f0 f255 by (simp add: unsigned_of_int take_bit_int_eq_self)
qed

lemma clip_unit: "\<exists>m e. clip (nan_to_num x) = Finite m e \<and> 0 \<le> fval m e \<and> fval m e \<le> 1"
  by (cases x) (auto simp: fval_def)

lemma sanitize_special:
  "sanitize NaN = Some 0" "sanitize PosInf = Some 255" "sanitize NegInf = Some 0"
  by (simp_all add: sanitize_def f32_round_def round_shift_def fval_def pow2_def trunc_def
      compute_bitlen Let_def)

lemma f32_round_exact:
  assumes "\<bar>n\<bar> < 2 ^ 24" and "- 149 \<le> e" and "fval \<bar>n\<bar> e < pow2 128"
  shows "f32_round n e = Finite n e"
proof -
  have "bitlen \<bar>n\<bar> \<le> 24" using assms(1) by (simp add: bitlen_le_iff_power)
  with assms(2) have "nat (max 0 (max (bitlen \<bar>n\<bar> - 24) (- 149 - e))) = 0" by simp
  with assms(3) show ?thesis by (simp add: f32_round_def)
qed

lemma sanitize_range:
  "\<exists>n e. f32_mul (clip (nan_to_num x)) (Finite 255 0) = Finite n e \<and>
         0 \<le> fval n e \<and> fval n e \<le> 255 \<and>
         sanitize x = Some (word_of_int \<lfloor>fval n e\<rfloor>) \<and>
         unat (word_of_int \<lfloor>fval n e\<rfloor> :: 8 word) = nat \<lfloor>fval n e\<rfloor> \<and>
         nat \<lfloor>fval n e\<rfloor> \<le> 255"
proof -
  from clip_unit [of x] obtain m e
    where c: "clip (nan_to_num x) = Finite m e" and lo: "0 \<le> fval m e" and hi: "fval m e \<le> 1"
    by blast
  from lo have m0: "0 \<le> m * 255" by (simp add: fval_nonneg_iff)
  have "fval (m * 255) e = 255 * fval m e" by (simp add: fval_def)
  with hi have "fval (m * 255) e \<le> 255" by simp
  from f32_round_unit [OF m0 this] obtain n e'
    where r: "f32_round (m * 255) e = Finite n e'" and n0: "0 \<le> n" and n255: "fval n e' \<le> 255"
    by blast
  have mul: "f32_mul (clip (nan_to_num x)) (Finite 255 0) = Finite n e'"
    by (simp add: c r)
  note a = astype_uint8_unit [OF n0 n255]
  have "sanitize x = Some (word_of_int \<lfloor>fval n e'\<rfloor>)"
    by (simp only: sanitize_def mul a(1))
  moreover have "nat \<lfloor>fval n e'\<rfloor> \<le> 255" using a(3) by arith
  moreover have "0 \<le> fval n e'" using n0 by (simp add: fval_nonneg_iff)
  ultimately show ?thesis using mul n255 a(4) by blast
qed

lemma sanitize_exact:
  assumes "0 \<le> fval m e" and "fval m e \<le> 1" and "\<bar>255 * m\<bar> < 2 ^ 24" and "- 149 \<le> e"
  shows "sanitize (Finite m e) = Some (word_of_int \<lfloor>255 * fval m e\<rfloor>)"
proof -
  have m0: "0 \<le> m * 255" using assms(1) by (simp add: fval_nonneg_iff)
  have v: "fval (m * 255) e = 255 * fval m e" by (simp add: fval_def)
  with assms(2) have le: "fval (m * 255) e \<le> 255" by simp
  have "fval \<bar>m * 255\<bar> e \<le> 255" using m0 le by simp
  also have "(255::rat) < pow2 128" by (simp add: pow2_def)
  finally have "f32_round (m * 255) e = Finite (m * 255) e"
    using assms(3,4) by (intro f32_round_exact) (simp_all add: mult.commute)
  moreover have "clip (Finite m e) = Finite m e" using assms(1,2) by simp
  ultimately have "sanitize (Finite m e) = astype_uint8 (Finite (m * 255) e)"
    by (simp add: sanitize_def)
  with astype_uint8_unit(1) [OF m0 le] v show ?thesis by simp
qed

text \<open>
  Claim C2 fails as stated: \<open>np.nan_to_num\<close> replaces only NaN with 0. Positive
  infinity becomes the largest finite float32, which the clamp turns into 1.0, so its
  byte is 255 and not 0.
\<close>

theorem posinf_is_not_replaced_by_zero:
  "nan_to_num PosInf = Finite 16777215 104 \<and> fval 16777215 104 \<noteq> 0 \<and>
   clip (nan_to_num PosInf) = Finite 1 0 \<and> sanitize PosInf = Some 255 \<and>
   sanitize PosInf \<noteq> sanitize (Finite 0 0)"
  by (simp add: sanitize_special, simp add: sanitize_def f32_round_def round_shift_def fval_def pow2_def trunc_def
      compute_bitlen Let_def)

text \<open>
  Claim C2, amended. The sanitization replaces NaN with 0, positive infinity with the
  largest finite float32 and negative infinity with its negative, then clamps to
  \<open>[0.0, 1.0]\<close>, multiplies by 255 in float32 and drops the fraction. It is defined
  for every float32: no value makes it fail, the product lies in \<open>[0, 255]\<close>, the
  conversion to 8 bits never wraps, and the byte is at most 255; NaN and negative
  infinity give 0, positive infinity gives 255. Where the product needs no rounding
  the byte is the integer part of 255 times the value.
\<close>

theorem sanitize_bounded:
  "sanitize NaN = Some 0 \<and> sanitize PosInf = Some 255 \<and> sanitize NegInf = Some 0 \<and>
   (\<exists>m e. clip (nan_to_num x) = Finite m e \<and> 0 \<le> fval m e \<and> fval m e \<le> 1) \<and>
   (\<exists>n e. f32_mul (clip (nan_to_num x)) (Finite 255 0) = Finite n e \<and>
          0 \<le> fval n e \<and> fval n e \<le> 255 \<and>
          sanitize x = Some (word_of_int \<lfloor>fval n e\<rfloor>) \<and>
          unat (word_of_int \<lfloor>fval n e\<rfloor> :: 8 word) = nat \<lfloor>fval n e\<rfloor> \<and>
          nat \<lfloor>fval n e\<rfloor> \<le> 255) \<and>
   (0 \<le> fval m e \<and> fval m e \<le> 1 \<and> \<bar>255 * m\<bar> < 2 ^ 24 \<and> - 149 \<le> e \<longrightarrow>
      sanitize (Finite m e) = Some (word_of_int \<lfloor>255 * fval m e\<rfloor>))"
  using sanitize_special clip_unit [of x] sanitize_range [of x] sanitize_exact [of m e]
  by blast

theorem sanitize_bounded_witness:
  "0 \<le> fval 1 (- 1) \<and> fval 1 (- 1) \<le> 1 \<and> \<bar>255 * 1\<bar> < (2 ^ 24 :: int) \<and> - 149 \<le> (- 1 :: int) \<and>
   sanitize (Finite 1 (- 1)) = Some 127 \<and> sanitize PosInf = Some 255 \<and> sanitize NaN = Some 0"
proof -
  have f: "\<lfloor>255 * fval 1 (- 1)\<rfloor> = 127"
    by (rule floor_unique) (simp_all add: fval_def pow2_def)
  have h: "0 \<le> fval 1 (- 1) \<and> fval 1 (- 1) \<le> 1 \<and> \<bar>255 * 1\<bar> < (2 ^ 24 :: int) \<and> - 149 \<le> (- 1 :: int)"
    by (simp add: fval_def pow2_def)
  from sanitize_bounded [of NaN 1 "- 1"] h f show ?thesis by simp
qed

section \<open>The channel policy of the decoder\<close>



text \<open>What holds of the channel policy in general.\<close>

lemma those_map_sanitize: "those (map sanitize img) = Some (map (the \<circ> sanitize) img)"
proof (induction img)
  case Nil
  show ?case by simp
next
  case (Cons x img)
  from sanitize_range [of x] obtain b where "sanitize x = Some b" by blast
  with Cons show ?case by simp
qed

lemma first3_length:
  "3 \<le> c \<Longrightarrow> length xs = n * c \<Longrightarrow> length (first3 c xs) = n * 3"
proof (induction n arbitrary: xs)
  case 0
  then show ?case by (simp add: first3_def chunks.simps)
next
  case (Suc n)
  then have ne: "xs \<noteq> []" "c \<noteq> 0" by auto
  from Suc.prems have "length (drop c xs) = n * c" by simp
  with Suc have "length (first3 c (drop c xs)) = n * 3" by blast
  moreover from Suc.prems have "length (take 3 (take c xs)) = 3" by simp
  ultimately show ?case
    using ne by (simp add: first3_def chunks.simps [of c xs] del: take_take)
qed

lemma first3_nth:
  "3 \<le> c \<Longrightarrow> length xs = n * c \<Longrightarrow> i < n \<Longrightarrow> j < 3 \<Longrightarrow>
     first3 c xs ! (i * 3 + j) = xs ! (i * c + j)"
proof (induction n arbitrary: xs i)
  case 0
  then show ?case by simp
next
  case (Suc n)
  then have ne: "xs \<noteq> []" "c \<noteq> 0" by auto
  have len: "length (drop c xs) = n * c" using Suc.prems by simp
  have l3: "length (take 3 (take c xs)) = 3" using Suc.prems by simp
  have unfold: "first3 c xs = take 3 (take c xs) @ first3 c (drop c xs)"
    using ne by (simp add: first3_def chunks.simps [of c xs] del: take_take)
  show ?case
  proof (cases i)
    case 0
    with Suc.prems l3 show ?thesis
      unfolding unfold by (simp add: nth_append del: take_take)
  next
    case (Suc i')
    with Suc.prems have i': "i' < n" by simp
    from Suc.IH [OF Suc.prems(1) len i' Suc.prems(4)]
    have "first3 c (drop c xs) ! (i' * 3 + j) = drop c xs ! (i' * c + j)" .
    moreover have "drop c xs ! (i' * c + j) = xs ! (i * c + j)"
      using Suc Suc.prems by (simp add: add.assoc)
    moreover have "(take 3 (take c xs) @ first3 c (drop c xs)) ! (i * 3 + j) =
        first3 c (drop c xs) ! (i' * 3 + j)"
      using l3 Suc by (simp add: nth_append del: take_take)
    ultimately show ?thesis unfolding unfold by simp
  qed
qed

lemma run_grayscale:
  assumes "oiio_open env path = Some inp" and "read_image inp = Inr img"
    and "spec_nchannels inp = 1" and "length img = spec_height inp * spec_width inp"
  shows "run env path =
           Some (Finished path
             (Scaled \<lparr>qi_width = spec_width inp, qi_height = spec_height inp,
                      qi_bytes_per_line = spec_width inp, qi_format = Format_Grayscale8,
                      qi_bits = map (the \<circ> sanitize) img\<rparr> 220 220)
             (info_text (spec_width inp) (spec_height inp) 1))"
  using assms by (simp add: run_def those_map_sanitize qimage_copy_def Let_def)

lemma run_rgb:
  assumes "oiio_open env path = Some inp" and "read_image inp = Inr img"
    and "3 \<le> spec_nchannels inp"
    and "length img = spec_height inp * spec_width inp * spec_nchannels inp"
  shows "run env path =
           Some (Finished path
             (Scaled \<lparr>qi_width = spec_width inp, qi_height = spec_height inp,
                      qi_bytes_per_line = spec_width inp * 3, qi_format = Format_RGB888,
                      qi_bits = first3 (spec_nchannels inp) (map (the \<circ> sanitize) img)\<rparr> 220 220)
             (info_text (spec_width inp) (spec_height inp) (spec_nchannels inp)))"
proof -
  have "length (first3 (spec_nchannels inp) (map (the \<circ> sanitize) img)) =
          spec_height inp * spec_width inp * 3"
    using assms(3,4) by (intro first3_length) simp_all
  with assms show ?thesis
    by (simp add: run_def those_map_sanitize qimage_copy_def mult.assoc Let_def)
qed

lemma run_two_channels:
  assumes "oiio_open env path = Some inp" and "read_image inp = Inr img"
    and "spec_nchannels inp = 2"
    and "length img = spec_height inp * spec_width inp * spec_nchannels inp"
    and "0 < spec_height inp * spec_width inp"
  shows "run env path = None"
  using assms by (simp add: run_def those_map_sanitize qimage_copy_def Let_def)

section \<open>The environment light\<close>

lemma set_parm_type [simp]: "node_type (set_parm name v n) = node_type n"
  by (simp add: set_parm_def split: option.split)

lemma is_envlight_set_parm [simp]: "is_envlight (set_parm name v n) = is_envlight n"
  by (simp add: is_envlight_def)

lemma filter_update_first:
  "length (filter is_envlight (update_first is_envlight (set_parm name v) xs)) =
   length (filter is_envlight xs)"
  by (induction xs) simp_all


lemma find_None_filter: "find P xs = None \<longleftrightarrow> filter P xs = []"
  by (induction xs) simp_all

lemma envlights_set_light_parm:
  "length (envlights (set_light_parm name v h)) = length (envlights h)"
  by (simp add: set_light_parm_def envlights_def filter_update_first split: option.split)



lemma envlights_mousePressEvent:
  "envlights h \<noteq> [] \<Longrightarrow> length (envlights (mousePressEvent b p h)) = length (envlights h)"
  "envlights h = [] \<Longrightarrow> length (envlights (mousePressEvent b p h)) \<le> 1"
  by (auto simp: mousePressEvent_def apply_env_light_def envlights_def find_None_filter
      filter_update_first new_envlight_def is_envlight_def set_parm_def
      split: option.splits)

lemma light_step_invariant:
  "length (envlights (snd w)) \<le> 1 \<Longrightarrow> length (envlights (snd (light_step op w))) \<le> 1"
proof (cases w)
  case (Pair s h)
  assume inv: "length (envlights (snd w)) \<le> 1"
  show ?thesis
  proof (cases op)
    case (SelectImage b p)
    show ?thesis
    proof (cases "envlights h = []")
      case True
      with envlights_mousePressEvent(2) [OF True] Pair SelectImage show ?thesis by simp
    next
      case False
      with envlights_mousePressEvent(1) [OF False] Pair SelectImage inv show ?thesis by simp
    qed
  next
    case (ChangeRotation r)
    with Pair inv show ?thesis by (simp add: on_location_changed_def envlights_set_light_parm)
  next
    case (ChangeIntensity v)
    with Pair inv show ?thesis by (simp add: on_intensity_changed_def envlights_set_light_parm)
  qed
qed

lemma light_steps_invariant:
  "length (envlights (snd w)) \<le> 1 \<Longrightarrow> length (envlights (snd (light_steps ops w))) \<le> 1"
  unfolding light_steps_def
proof (induction ops arbitrary: w)
  case Nil
  then show ?case by simp
next
  case (Cons op ops)
  from Cons.prems have "length (envlights (snd (light_step op w))) \<le> 1"
    by (rule light_step_invariant)
  from Cons.IH [OF this] show ?case by simp
qed




text \<open>
  Claim C9. The slider handlers only look the environment light up: they never change
  how many environment lights \<open>/obj\<close> has. Selecting an image creates one only when
  \<open>/obj\<close> has none, and then exactly one at most; with a light present it reuses the
  first. So from a scene with at most one environment light, every sequence of image
  selections, rotation changes and intensity changes leads to a scene with at most one.
\<close>

theorem at_most_one_envlight:
  "(length (envlights h) \<le> 1 \<longrightarrow> length (envlights (snd (light_steps ops (s, h)))) \<le> 1) \<and>
   length (envlights (snd (on_intensity_changed v (s, h)))) = length (envlights h) \<and>
   length (envlights (snd (on_location_changed r (s, h)))) = length (envlights h) \<and>
   (envlights h \<noteq> [] \<longrightarrow> length (envlights (mousePressEvent b p h)) = length (envlights h)) \<and>
   (envlights h = [] \<longrightarrow> length (envlights (mousePressEvent b p h)) \<le> 1)"
  using light_steps_invariant [of "(s, h)" ops] envlights_mousePressEvent [of h b p]
  by (simp add: on_intensity_changed_def on_location_changed_def envlights_set_light_parm)

theorem at_most_one_envlight_witness:
  "length (envlights bare_scene) \<le> 1 \<and> envlights bare_scene = [] \<and>
   length (envlights (snd (light_steps
      [ChangeIntensity 10, SelectImage LeftButton (str ''/hdri/a.exr''),
       SelectImage LeftButton (str ''/hdri/b.HDR''), ChangeRotation 90] (init 8, bare_scene)))) \<le> 1 \<and>
   length (envlights (mousePressEvent LeftButton (str ''/hdri/a.exr'') bare_scene)) = 1 \<and>
   light_parm (str ''env_map'') (mousePressEvent LeftButton (str ''/hdri/b.HDR'')
      (mousePressEvent LeftButton (str ''/hdri/a.exr'') bare_scene)) = Some (PString (str ''/hdri/b.HDR''))"
proof -
  have b: "envlights bare_scene = []" by (simp add: envlights_def bare_scene_def)
  have one: "length (envlights (mousePressEvent LeftButton (str ''/hdri/a.exr'') bare_scene)) = 1"
    by (simp add: mousePressEvent_def apply_env_light_def bare_scene_def envlights_def
        ENABLE_ENV_LIGHT_CLICK_def new_envlight_def set_parm_def is_envlight_def)
  have two: "light_parm (str ''env_map'') (mousePressEvent LeftButton (str ''/hdri/b.HDR'')
      (mousePressEvent LeftButton (str ''/hdri/a.exr'') bare_scene)) = Some (PString (str ''/hdri/b.HDR''))"
    by (simp add: mousePressEvent_def apply_env_light_def bare_scene_def light_parm_def
        ENABLE_ENV_LIGHT_CLICK_def new_envlight_def set_parm_def is_envlight_def)
  from at_most_one_envlight [of bare_scene
      "[ChangeIntensity 10, SelectImage LeftButton (str ''/hdri/a.exr''),
        SelectImage LeftButton (str ''/hdri/b.HDR''), ChangeRotation 90]" "init 8"] b one two
  show ?thesis by simp
qed

end
